theory Spec2Isabelle
  imports Complex_Main "HOL-Library.Multiset"
begin

section \<open>Period detection and continuity analysis of a timestamp stream\<close>

text \<open>
  A shallow embedding of \<^verbatim>\<open>analyzeTimeseries.go\<close> (package \<^verbatim>\<open>timeseries\<close>).

  Conventions of the embedding.
  \<^item> A \<^verbatim>\<open>time.Time\<close> is the instant it denotes, an integer count of nanoseconds since
    the Unix epoch; the location of every value is taken to be UTC, so that a calendar
    day is 24 hours and \<^verbatim>\<open>AddDate(0, 0, 1)\<close> adds exactly that.
  \<^item> A \<^verbatim>\<open>time.Duration\<close> is an integer count of nanoseconds, an \<^verbatim>\<open>int64\<close>:
    \<^verbatim>\<open>Time.Sub\<close> saturates at the ends of that range, and the model writes it out.
  \<^item> A \<^verbatim>\<open>float64\<close> is idealised as a real number: exact arithmetic, no NaN, no
    infinity, no rounding.
  \<^item> The library calls whose result the language leaves open are parameters of the
    model, collected in the record \<open>runtime\<close>: the order \<^verbatim>\<open>sort.Slice\<close> leaves equal
    elements in, the iteration order of a \<^verbatim>\<open>map\<close>, and the value of a
    float-to-integer conversion that does not fit.
\<close>

subsection \<open>The time library\<close>

type_synonym Time = int
type_synonym Duration = int

definition Millisecond :: Duration where
  "Millisecond = 1000000"

definition Hour :: Duration where
  "Hour = 3600000000000"

definition maxDuration :: Duration where
  "maxDuration = 2 ^ 63 - 1"

definition minDuration :: Duration where
  "minDuration = - (2 ^ 63)"

text \<open>Go's integer division truncates towards zero, and the remainder has the sign of
  the dividend.\<close>

definition go_quot :: "int \<Rightarrow> int \<Rightarrow> int" where
  "go_quot a b = sgn a * sgn b * (\<bar>a\<bar> div \<bar>b\<bar>)"

definition go_rem :: "int \<Rightarrow> int \<Rightarrow> int" where
  "go_rem a b = a - b * go_quot a b"

text \<open>\<^verbatim>\<open>time.Unix(sec, nsec)\<close>: the instant \<open>sec\<close> seconds and \<open>nsec\<close> nanoseconds after the
  epoch; \<open>nsec\<close> may lie outside \<open>[0, 999999999]\<close>.\<close>

definition time_Unix :: "int \<Rightarrow> int \<Rightarrow> Time" where
  "time_Unix sec nsec = sec * 1000000000 + nsec"

text \<open>The zero value \<^verbatim>\<open>time.Time{}\<close> is January 1, year 1, 00:00:00 UTC, which lies
  62135596800 seconds before the Unix epoch.\<close>

definition zeroTime :: Time where
  "zeroTime = - 62135596800 * 1000000000"

definition IsZero :: "Time \<Rightarrow> bool" where
  "IsZero t \<longleftrightarrow> t = zeroTime"

definition Before :: "Time \<Rightarrow> Time \<Rightarrow> bool" where
  "Before t u \<longleftrightarrow> t < u"

definition After :: "Time \<Rightarrow> Time \<Rightarrow> bool" where
  "After t u \<longleftrightarrow> t > u"

definition time_Add :: "Time \<Rightarrow> Duration \<Rightarrow> Time" where
  "time_Add t d = t + d"

text \<open>\<^verbatim>\<open>t.Sub(u)\<close>: the duration \<open>t - u\<close>, replaced by the largest or smallest duration
  when it does not fit.\<close>

definition time_Sub :: "Time \<Rightarrow> Time \<Rightarrow> Duration" where
  "time_Sub t u =
     (let d = t - u
      in if d > maxDuration then maxDuration
         else if d < minDuration then minDuration
         else d)"

text \<open>\<^verbatim>\<open>t.Truncate(d)\<close> rounds \<open>t\<close> down to a multiple of \<open>d\<close> since the zero time.\<close>

definition Truncate :: "Time \<Rightarrow> Duration \<Rightarrow> Time" where
  "Truncate t d = (if d \<le> 0 then t else t - (t - zeroTime) mod d)"

text \<open>\<^verbatim>\<open>d.Hours()\<close>: the duration as a floating-point number of hours.\<close>

definition Hours :: "Duration \<Rightarrow> real" where
  "Hours d = real_of_int (go_quot d Hour) + real_of_int (go_rem d Hour) / (60 * 60 * 1000000000)"

subsection \<open>Configuration and results\<close>

record PeriodConfig =
  MinPeriod :: real
  MaxPeriod :: real
  NumPeriods :: int
  SamplesPerPeak :: int

record PeriodResult =
  Period :: real
  Power :: real
  Significance :: real

subsection \<open>What the language leaves open\<close>

text \<open>
  \<^item> \<open>sort_Slice lt xs\<close> stands for \<^verbatim>\<open>sort.Slice(xs, less)\<close> on a slice of indices;
    the library documents that the sort is not guaranteed to be stable.
  \<^item> \<open>float_to_int f\<close> is the value of \<^verbatim>\<open>int(f)\<close> for an \<open>f\<close> whose integer part does not
    fit in an \<^verbatim>\<open>int\<close>, which the language calls implementation-dependent.
  \<^item> \<open>range_order ks\<close> is the order in which a \<^verbatim>\<open>for ... range\<close> loop visits the keys
    \<open>ks\<close> of a map keyed by instants, and \<open>range_order_months\<close> that of a map keyed by
    months; the language does not specify the iteration order of a map.
\<close>

record runtime =
  sort_Slice :: "(nat \<Rightarrow> nat \<Rightarrow> bool) \<Rightarrow> nat list \<Rightarrow> nat list"
  float_to_int :: "real \<Rightarrow> int"
  range_order :: "Time list \<Rightarrow> Time list"
  range_order_months :: "(int \<times> int) list \<Rightarrow> (int \<times> int) list"



text \<open>\<^verbatim>\<open>int(f)\<close> discards the fraction of \<open>f\<close> (truncation towards zero).\<close>

definition trunc_zero :: "real \<Rightarrow> int" where
  "trunc_zero f = (if f < 0 then \<lceil>f\<rceil> else \<lfloor>f\<rfloor>)"

definition go_int :: "runtime \<Rightarrow> real \<Rightarrow> int" where
  "go_int rt f =
     (if - (2 ^ 63) \<le> trunc_zero f \<and> trunc_zero f < 2 ^ 63 then trunc_zero f else float_to_int rt f)"

subsection \<open>The periodogram\<close>

text \<open>\<^verbatim>\<open>computePower\<close>: the power of the series at one frequency.\<close>

definition computePower :: "real list \<Rightarrow> real \<Rightarrow> real" where
  "computePower tms freq =
     (let omega = 2 * pi * freq;
          N = real (length tms);
          sumCos = sum_list (map (\<lambda>t. cos (omega * t)) tms);
          sumSin = sum_list (map (\<lambda>t. sin (omega * t)) tms)
      in (sumCos * sumCos + sumSin * sumSin) / N)"

text \<open>The size of the frequency grid, as \<^verbatim>\<open>computePeriodogram\<close> computes it from the
  span \<open>T\<close>.\<close>

definition gridSize :: "runtime \<Rightarrow> PeriodConfig \<Rightarrow> real \<Rightarrow> int" where
  "gridSize rt cfg T =
     (let minFreq = 1 / MaxPeriod cfg;
          maxFreq = 1 / MinPeriod cfg;
          nFreqs = go_int rt (real_of_int (SamplesPerPeak cfg) * T * (maxFreq - minFreq))
      in if nFreqs < 100 then 100
         else if nFreqs > 10000 then 10000
         else nFreqs)"

text \<open>\<^verbatim>\<open>computePeriodogram\<close>. Its only caller passes at least four points, so
  \<^verbatim>\<open>times[len(times)-1]\<close> and \<^verbatim>\<open>times[0]\<close> are in range.\<close>

definition computePeriodogram ::
  "runtime \<Rightarrow> PeriodConfig \<Rightarrow> real list \<Rightarrow> real list \<times> real list" where
  "computePeriodogram rt cfg tms =
     (let minFreq = 1 / MaxPeriod cfg;
          maxFreq = 1 / MinPeriod cfg;
          T = tms ! (length tms - 1) - tms ! 0
      in if T \<le> 0 then ([], [])
         else
           let nFreqs = gridSize rt cfg T;
               df = (maxFreq - minFreq) / real_of_int (nFreqs - 1);
               freqs = map (\<lambda>i. minFreq + real i * df) [0 ..< nat nFreqs]
           in (freqs, map (computePower tms) freqs))"

subsection \<open>Peak extraction\<close>

text \<open>\<^verbatim>\<open>findLocalPeaks\<close>: the interior indices whose value exceeds both neighbours.\<close>

definition findLocalPeaks :: "real list \<Rightarrow> nat list" where
  "findLocalPeaks data =
     filter (\<lambda>i. data ! i > data ! (i - 1) \<and> data ! i > data ! (i + 1))
       [1 ..< length data - 1]"

definition sortPeaksByPower :: "runtime \<Rightarrow> nat list \<Rightarrow> real list \<Rightarrow> nat list" where
  "sortPeaksByPower rt peaks powers = sort_Slice rt (\<lambda>a b. powers ! a > powers ! b) peaks"

text \<open>The normalising total of \<^verbatim>\<open>findSignificantPeaks\<close>: the sum of the whole spectrum,
  raised to \<open>1e-10\<close> when it is smaller.\<close>

definition totalPower :: "real list \<Rightarrow> real" where
  "totalPower powers =
     (let total = sum_list powers
      in if total < 1 / 10 ^ 10 then 1 / 10 ^ 10 else total)"

text \<open>The indices \<^verbatim>\<open>findSignificantPeaks\<close> keeps, in the order it reports them.\<close>

definition rankedPeaks :: "runtime \<Rightarrow> PeriodConfig \<Rightarrow> real list \<Rightarrow> nat list" where
  "rankedPeaks rt cfg powers =
     (let peaks = findLocalPeaks powers
      in if length peaks = 0 then []
         else
           let peaks = sortPeaksByPower rt peaks powers
           in if int (length peaks) > NumPeriods cfg
              then take (nat (NumPeriods cfg)) peaks
              else peaks)"

text \<open>\<^verbatim>\<open>findSignificantPeaks\<close>. The indices come from \<^verbatim>\<open>findLocalPeaks\<close>, so they are in
  range of \<open>powers\<close>, and of \<open>freqs\<close>, which the caller passes with the same length.\<close>

definition findSignificantPeaks ::
  "runtime \<Rightarrow> PeriodConfig \<Rightarrow> real list \<Rightarrow> real list \<Rightarrow> PeriodResult list" where
  "findSignificantPeaks rt cfg freqs powers =
     map (\<lambda>idx. \<lparr>Period = 1 / freqs ! idx,
                 Power = powers ! idx,
                 Significance = powers ! idx / totalPower powers * 100\<rparr>)
       (rankedPeaks rt cfg powers)"

subsection \<open>Detection on one window\<close>

text \<open>\<^verbatim>\<open>convertToHours\<close>: hours since the earliest instant of the slice.\<close>

definition convertToHours :: "Time list \<Rightarrow> real list" where
  "convertToHours tms =
     (if length tms = 0 then []
      else
        let minTime = foldl (\<lambda>m t. if Before t m then t else m) (tms ! 0) tms
        in map (\<lambda>t. Hours (time_Sub t minTime)) tms)"

definition detect :: "runtime \<Rightarrow> PeriodConfig \<Rightarrow> Time list \<Rightarrow> PeriodResult list" where
  "detect rt cfg tms =
     (if length tms < 4 then []
      else
        let timesHours = convertToHours tms;
            (freqs, powers) = computePeriodogram rt cfg timesHours
        in findSignificantPeaks rt cfg freqs powers)"

definition findDateRange :: "Time list \<Rightarrow> Time \<times> Time" where
  "findDateRange tms =
     (if length tms = 0 then (zeroTime, zeroTime)
      else
        foldl (\<lambda>(start, endT) t.
                 (if Before t start then t else start, if After t endT then t else endT))
          (tms ! 0, tms ! 0) tms)"

definition filterByTimeRange :: "Time list \<Rightarrow> Time \<Rightarrow> Duration \<Rightarrow> Time list" where
  "filterByTimeRange tms endT duration =
     (let startTime = time_Add endT (- duration)
      in filter (\<lambda>t. After t startTime \<and> Before t (time_Add endT (24 * Hour))) tms)"

subsection \<open>The calendar\<close>

text \<open>The civil date of an instant in UTC, in the proleptic Gregorian calendar the
  library uses: \<open>civil_from_days z\<close> is the year, month and day of the day \<open>z\<close> days after
  January 1, 1970, and \<open>days_from_civil\<close> is its inverse.\<close>

definition unix_day :: "Time \<Rightarrow> int" where
  "unix_day t = t div (24 * Hour)"

definition civil_from_days :: "int \<Rightarrow> int \<times> int \<times> int" where
  "civil_from_days z0 =
     (let z = z0 + 719468;
          era = z div 146097;
          doe = z - era * 146097;
          yoe = (doe - doe div 1460 + doe div 36524 - doe div 146096) div 365;
          y = yoe + era * 400;
          doy = doe - (365 * yoe + yoe div 4 - yoe div 100);
          mp = (5 * doy + 2) div 153;
          d = doy - (153 * mp + 2) div 5 + 1;
          m = (if mp < 10 then mp + 3 else mp - 9)
      in (if m \<le> 2 then y + 1 else y, m, d))"

definition days_from_civil :: "int \<Rightarrow> int \<Rightarrow> int \<Rightarrow> int" where
  "days_from_civil y0 m d =
     (let y = (if m \<le> 2 then y0 - 1 else y0);
          era = y div 400;
          yoe = y - era * 400;
          doy = (153 * (if m > 2 then m - 3 else m + 9) + 2) div 5 + d - 1;
          doe = yoe * 365 + yoe div 4 - yoe div 100 + doy
      in era * 146097 + doe - 719468)"

definition time_Year :: "Time \<Rightarrow> int" where
  "time_Year t = fst (civil_from_days (unix_day t))"

definition time_Month :: "Time \<Rightarrow> int" where
  "time_Month t = fst (snd (civil_from_days (unix_day t)))"

text \<open>\<^verbatim>\<open>t.Weekday()\<close>, Sunday being 0; January 1, 1970 was a Thursday.\<close>

definition time_Weekday :: "Time \<Rightarrow> int" where
  "time_Weekday t = (unix_day t + 4) mod 7"

text \<open>\<^verbatim>\<open>t.ISOWeek()\<close>: the year and the week number of the Thursday of the week of \<open>t\<close>.\<close>

definition time_ISOWeek :: "Time \<Rightarrow> int \<times> int" where
  "time_ISOWeek t =
     (let d0 = 4 - time_Weekday t;
          d = (if d0 = 4 then - 3 else d0);
          thursday = unix_day t + d;
          y = fst (civil_from_days thursday);
          yday = thursday - days_from_civil y 1 1
      in (y, yday div 7 + 1))"

text \<open>\<^verbatim>\<open>t.AddDate(0, 0, n)\<close> in UTC.\<close>

definition AddDate_days :: "Time \<Rightarrow> int \<Rightarrow> Time" where
  "AddDate_days t n = t + n * (24 * Hour)"

text \<open>The first instant of a month, \<^verbatim>\<open>time.Date(y, m, 1, 0, 0, 0, 0, loc)\<close>, is represented
  by the pair of its year and month. Their order is the order of the instants, the zero
  time is the first of January of year 1, and \<^verbatim>\<open>AddDate(0, 1, 0)\<close> is the first instant of
  the next month.\<close>

type_synonym MonthStart = "int \<times> int"

definition month_of :: "Time \<Rightarrow> MonthStart" where
  "month_of t = (time_Year t, time_Month t)"

definition month_IsZero :: "MonthStart \<Rightarrow> bool" where
  "month_IsZero m \<longleftrightarrow> m = (1, 1)"

definition month_Before :: "MonthStart \<Rightarrow> MonthStart \<Rightarrow> bool" where
  "month_Before a b \<longleftrightarrow> fst a < fst b \<or> (fst a = fst b \<and> snd a < snd b)"

definition month_After :: "MonthStart \<Rightarrow> MonthStart \<Rightarrow> bool" where
  "month_After a b \<longleftrightarrow> month_Before b a"

definition month_next :: "MonthStart \<Rightarrow> MonthStart" where
  "month_next m = (if snd m \<ge> 12 then (fst m + 1, 1) else (fst m, snd m + 1))"

subsection \<open>Formatting\<close>

definition digit_char :: "nat \<Rightarrow> char" where
  "digit_char n = char_of (48 + n)"

fun show_nat :: "nat \<Rightarrow> string" where
  "show_nat n = (if n < 10 then [digit_char n] else show_nat (n div 10) @ [digit_char (n mod 10)])"

declare show_nat.simps [simp del]

text \<open>The verbs \<^verbatim>\<open>%d\<close> and \<^verbatim>\<open>%02d\<close> of \<^verbatim>\<open>fmt.Sprintf\<close>.\<close>

definition show_int :: "int \<Rightarrow> string" where
  "show_int i = (if i < 0 then CHR ''-'' # show_nat (nat (- i)) else show_nat (nat i))"

definition show_int02 :: "int \<Rightarrow> string" where
  "show_int02 i = (let s = show_int i in if length s < 2 then CHR ''0'' # s else s)"

text \<open>\<^verbatim>\<open>getQuarter\<close>: the label \<^verbatim>\<open>"2023-Q1"\<close> of the quarter of an instant.\<close>

definition getQuarter :: "Time \<Rightarrow> string" where
  "getQuarter t =
     (let year = time_Year t;
          month = time_Month t;
          quarter =
            (if month \<ge> 1 \<and> month \<le> 3 then 1
             else if month \<ge> 4 \<and> month \<le> 6 then 2
             else if month \<ge> 7 \<and> month \<le> 9 then 3
             else if month \<ge> 10 \<and> month \<le> 12 then 4
             else 0)
      in show_int year @ ''-Q'' @ show_int quarter)"

definition groupByQuarter :: "Time list \<Rightarrow> (string \<rightharpoonup> Time list)" where
  "groupByQuarter tms =
     foldl (\<lambda>quarters t.
              quarters(getQuarter t \<mapsto>
                (case quarters (getQuarter t) of None \<Rightarrow> [] | Some l \<Rightarrow> l) @ [t]))
       Map.empty tms"

text \<open>\<^verbatim>\<open>detectQuarterlyPeriods\<close>: one detection per quarter; the entries do not depend on the
  order in which the quarters are visited.\<close>

definition detectQuarterlyPeriods ::
  "runtime \<Rightarrow> PeriodConfig \<Rightarrow> Time list \<Rightarrow> (string \<rightharpoonup> PeriodResult list)" where
  "detectQuarterlyPeriods rt cfg tms =
     (\<lambda>quarter. map_option (detect rt cfg) (groupByQuarter tms quarter))"

subsection \<open>Calendar aggregates\<close>

record DayRecord =
  Date :: Time
  Count :: int

record WeekRecord =
  Week :: Time
  Count :: int

record MonthRecord =
  Month :: MonthStart
  Count :: int

text \<open>A \<^verbatim>\<open>map[K]int\<close> of counters: \<open>count_keys ks\<close> is the map after \<^verbatim>\<open>m[k]++\<close> for each
  \<open>k\<close> of \<open>ks\<close>, and \<open>lookup0 m k\<close> reads \<^verbatim>\<open>m[k]\<close>, which is 0 for a missing key.\<close>

definition lookup0 :: "('k \<rightharpoonup> int) \<Rightarrow> 'k \<Rightarrow> int" where
  "lookup0 m k = (case m k of None \<Rightarrow> 0 | Some c \<Rightarrow> c)"

definition count_keys :: "'k list \<Rightarrow> ('k \<rightharpoonup> int)" where
  "count_keys ks = foldl (\<lambda>m k. m(k \<mapsto> lookup0 m k + 1)) Map.empty ks"

text \<open>The loop of \<^verbatim>\<open>aggregateByDay\<close> that determines the range of dates, over the keys in
  the order the loop visits them. A bound that is the zero time counts as not yet set.\<close>

definition date_bounds :: "Time list \<Rightarrow> Time \<times> Time" where
  "date_bounds keys =
     foldl (\<lambda>(minDate, maxDate) date.
              (if IsZero minDate \<or> Before date minDate then date else minDate,
               if IsZero maxDate \<or> After date maxDate then date else maxDate))
       (zeroTime, zeroTime) keys"

text \<open>The loop of \<^verbatim>\<open>aggregateByDay\<close> that generates the series.\<close>

function day_series :: "(Time \<rightharpoonup> int) \<Rightarrow> Time \<Rightarrow> Time \<Rightarrow> DayRecord list" where
  "day_series dateMap current maxDate =
     (if After current maxDate then []
      else \<lparr>Date = current, Count = lookup0 dateMap current\<rparr>
             # day_series dateMap (AddDate_days current 1) maxDate)"
  by pat_completeness auto
termination
  by (relation "measure (\<lambda>(dateMap, current, maxDate). nat (maxDate - current + 1))")
     (auto simp: After_def AddDate_days_def Hour_def)

declare day_series.simps [simp del]

definition aggregateByDay :: "runtime \<Rightarrow> Time list \<Rightarrow> DayRecord list" where
  "aggregateByDay rt tms =
     (let dates = map (\<lambda>t. Truncate t (24 * Hour)) tms;
          dateMap = count_keys dates;
          keys = remdups dates
      in if length keys = 0 then []
         else
           let (minDate, maxDate) = date_bounds (range_order rt keys)
           in day_series dateMap minDate maxDate)"

text \<open>\<^verbatim>\<open>aggregateByWeek\<close>. The key of a week is the text \<^verbatim>\<open>"2023-W05"\<close>; the start of a week
  is the Monday of the first instant seen with that key.\<close>

definition week_key :: "Time \<Rightarrow> string" where
  "week_key t = (let (year, week) = time_ISOWeek t in show_int year @ ''-W'' @ show_int02 week)"

definition week_start :: "Time \<Rightarrow> Time" where
  "week_start t =
     (let weekday = (if time_Weekday t = 0 then 7 else time_Weekday t);
          daysToMonday = weekday - 1
      in Truncate (AddDate_days t (- daysToMonday)) (24 * Hour))"

definition aggregateByWeek :: "Time list \<Rightarrow> WeekRecord list" where
  "aggregateByWeek tms =
     (let weekMap = count_keys (map week_key tms);
          weekStarts =
            foldl (\<lambda>m t. if m (week_key t) = None then m(week_key t \<mapsto> week_start t) else m)
              Map.empty tms;
          weeks = sort (map (\<lambda>k. the (weekStarts k)) (remdups (map week_key tms)))
      in map (\<lambda>weekStart. \<lparr>Week = weekStart, Count = lookup0 weekMap (week_key weekStart)\<rparr>)
           weeks)"

text \<open>\<^verbatim>\<open>aggregateByMonth\<close>, with the same two loops as \<^verbatim>\<open>aggregateByDay\<close>.\<close>

definition month_bounds :: "MonthStart list \<Rightarrow> MonthStart \<times> MonthStart" where
  "month_bounds keys =
     foldl (\<lambda>(minMonth, maxMonth) month.
              (if month_IsZero minMonth \<or> month_Before month minMonth then month else minMonth,
               if month_IsZero maxMonth \<or> month_After month maxMonth then month else maxMonth))
       ((1, 1), (1, 1)) keys"

function month_series ::
  "(MonthStart \<rightharpoonup> int) \<Rightarrow> MonthStart \<Rightarrow> MonthStart \<Rightarrow> MonthRecord list" where
  "month_series monthMap current maxMonth =
     (if month_After current maxMonth then []
      else \<lparr>Month = current, Count = lookup0 monthMap current\<rparr>
             # month_series monthMap (month_next current) maxMonth)"
  by pat_completeness auto
termination
  by (relation "measure (\<lambda>(monthMap, current, maxMonth).
        nat (12 * fst maxMonth + max (snd maxMonth) 12 - (12 * fst current + min (snd current) 12) + 1))")
     (auto simp: month_After_def month_Before_def month_next_def)

declare month_series.simps [simp del]

definition aggregateByMonth :: "runtime \<Rightarrow> Time list \<Rightarrow> MonthRecord list" where
  "aggregateByMonth rt tms =
     (let months = map month_of tms;
          monthMap = count_keys months;
          keys = remdups months
      in if length keys = 0 then []
         else
           let (minMonth, maxMonth) = month_bounds (range_order_months rt keys)
           in month_series monthMap minMonth maxMonth)"

subsection \<open>Slices and their backing arrays\<close>

text \<open>
  \<^verbatim>\<open>findLongestContinuousPeriod\<close> sorts the slice it is given in place, so the model
  keeps the backing arrays of the slices \<^verbatim>\<open>timestamps\<close> and \<^verbatim>\<open>times\<close> in a store: an array
  per address, and \<open>brk\<close>, the first address not yet allocated. A slice that covers its
  whole array is represented by the address of the array. The functions that only read a
  slice take its contents.
\<close>

record heap =
  arrays :: "nat \<Rightarrow> int list"
  brk :: nat

text \<open>\<^verbatim>\<open>make\<close>, followed by the loop that fills the new array.\<close>

definition alloc :: "int list \<Rightarrow> heap \<Rightarrow> nat \<times> heap" where
  "alloc xs h = (brk h, h\<lparr>arrays := (arrays h)(brk h := xs), brk := brk h + 1\<rparr>)"

subsection \<open>The longest continuous run\<close>

record PeriodResults =
  Daily :: "PeriodResult list"
  Weekly :: "PeriodResult list"
  AllTime :: "PeriodResult list"
  Quarterly :: "string \<rightharpoonup> PeriodResult list"

record ContinuousResult =
  AllData :: PeriodResults
  LongestContinuous :: PeriodResults
  Start :: Time
  End :: Time
  RecordCount :: int

text \<open>The variables of the scan over the unique days.\<close>

record scan_state =
  currentStart :: Time
  currentEnd :: Time
  currentLength :: int
  maxStart :: Time
  maxEnd :: Time
  maxLength :: int

text \<open>The comparison of the current run against the best run seen, made when a run is
  closed and once more after the loop.\<close>

definition close_run :: "scan_state \<Rightarrow> scan_state" where
  "close_run s =
     (if currentLength s > maxLength s
      then s\<lparr>maxStart := currentStart s, maxEnd := currentEnd s, maxLength := currentLength s\<rparr>
      else s)"

text \<open>The iterations \<open>i \<ge> 1\<close> of the loop: \<open>prev\<close> is \<^verbatim>\<open>days[i-1]\<close>, the list holds
  \<^verbatim>\<open>days[i]\<close> and the days after it.\<close>

fun scan_from :: "Time \<Rightarrow> Time list \<Rightarrow> scan_state \<Rightarrow> scan_state" where
  "scan_from prev [] s = s"
| "scan_from prev (day # days) s =
     (let gap = Hours (time_Sub day prev) / 24
      in if gap \<le> 2
         then scan_from day days (s\<lparr>currentEnd := day, currentLength := currentLength s + 1\<rparr>)
         else scan_from day days
                ((close_run s)\<lparr>currentStart := day, currentEnd := day, currentLength := 1\<rparr>))"

text \<open>The whole scan: the declarations, iteration 0, the other iterations and the check
  of the last run.\<close>

definition scan_days :: "Time list \<Rightarrow> scan_state" where
  "scan_days days =
     (let s0 = \<lparr>currentStart = zeroTime, currentEnd = zeroTime, currentLength = 0,
                maxStart = zeroTime, maxEnd = zeroTime, maxLength = 0\<rparr>
      in case days of
           [] \<Rightarrow> close_run s0
         | day # rest \<Rightarrow>
             close_run
               (scan_from day rest (s0\<lparr>currentStart := day, currentEnd := day, currentLength := 1\<rparr>)))"

text \<open>\<^verbatim>\<open>findLongestContinuousPeriod\<close> on the slice at address \<open>a\<close>. Instants are totally
  ordered and equal instants are indistinguishable, so every sort of them gives the same
  slice; the unique days are sorted, so the order in which the set of days is visited
  does not matter. The slice returned is given by its contents.\<close>

definition findLongestContinuousPeriod ::
  "nat \<Rightarrow> heap \<Rightarrow> (Time \<times> Time \<times> Time list) \<times> heap" where
  "findLongestContinuousPeriod a h =
     (if length (arrays h a) < 2 then ((zeroTime, zeroTime, arrays h a), h)
      else
        let h' = h\<lparr>arrays := (arrays h)(a := sort (arrays h a))\<rparr>;
            tms = arrays h' a;
            days = sort (remdups (map (\<lambda>t. Truncate t (24 * Hour)) tms));
            s = scan_days days
        in if maxLength s = 0 then ((tms ! 0, tms ! (length tms - 1), tms), h')
           else
             let startLimit = maxStart s;
                 endLimit = time_Add (maxEnd s) (24 * Hour);
                 continuous = filter (\<lambda>t. \<not> Before t startLimit \<and> Before t endLimit) tms
             in ((maxStart s, maxEnd s, continuous), h'))"

definition emptyPeriodResults :: PeriodResults where
  "emptyPeriodResults = \<lparr>Daily = [], Weekly = [], AllTime = [], Quarterly = Map.empty\<rparr>"

definition analyzeContinuousPeriods ::
  "runtime \<Rightarrow> PeriodConfig \<Rightarrow> nat \<Rightarrow> heap \<Rightarrow> ContinuousResult \<times> heap" where
  "analyzeContinuousPeriods rt cfg a h =
     (let result = \<lparr>AllData = emptyPeriodResults, LongestContinuous = emptyPeriodResults,
                    Start = zeroTime, End = zeroTime, RecordCount = 0\<rparr>
      in if length (arrays h a) = 0 then (result, h)
         else
           let result = result\<lparr>AllData := (AllData result)\<lparr>Daily := detect rt cfg (arrays h a)\<rparr>\<rparr>;
               result = result\<lparr>AllData := (AllData result)\<lparr>Weekly := detect rt cfg (arrays h a)\<rparr>\<rparr>;
               result = result\<lparr>AllData := (AllData result)\<lparr>AllTime := detect rt cfg (arrays h a)\<rparr>\<rparr>;
               result = result\<lparr>RecordCount := int (length (arrays h a))\<rparr>;
               ((start, endT, continuous), h') = findLongestContinuousPeriod a h
           in if length continuous > 0
              then
                let result = result\<lparr>Start := start\<rparr>;
                    result = result\<lparr>End := endT\<rparr>;
                    result = result\<lparr>LongestContinuous :=
                               (LongestContinuous result)\<lparr>Daily := detect rt cfg continuous\<rparr>\<rparr>;
                    result = result\<lparr>LongestContinuous :=
                               (LongestContinuous result)\<lparr>Weekly := detect rt cfg continuous\<rparr>\<rparr>;
                    result = result\<lparr>LongestContinuous :=
                               (LongestContinuous result)\<lparr>AllTime := detect rt cfg continuous\<rparr>\<rparr>
                in (result, h')
              else (result, h'))"

subsection \<open>The entry point\<close>

record AnalysisResult =
  TotalRecords :: int
  StartDate :: Time
  EndDate :: Time
  Days :: "DayRecord list"
  Weeks :: "WeekRecord list"
  Months :: "MonthRecord list"
  Periods :: PeriodResults
  Continuous :: ContinuousResult

text \<open>\<^verbatim>\<open>AnalyzeTimestamps\<close> on the slice \<^verbatim>\<open>timestamps\<close> at address \<open>a\<close>. An error is the text
  given to \<^verbatim>\<open>errors.New\<close>; the function returns the store it leaves behind.\<close>

definition AnalyzeTimestamps ::
  "runtime \<Rightarrow> nat \<Rightarrow> PeriodConfig \<Rightarrow> heap \<Rightarrow> (string + AnalysisResult) \<times> heap" where
  "AnalyzeTimestamps rt a config h =
     (let timestamps = arrays h a
      in if length timestamps = 0 then (Inl ''no timestamps provided'', h)
         else if MinPeriod config \<le> 0 then (Inl ''minPeriod must be positive'', h)
         else if MaxPeriod config \<le> 0 then (Inl ''maxPeriod must be positive'', h)
         else if MinPeriod config \<ge> MaxPeriod config
           then (Inl ''minPeriod must be less than maxPeriod'', h)
         else if NumPeriods config \<le> 0 then (Inl ''numPeriods must be at least 1'', h)
         else
           let (times_a, h1) =
                 alloc (map (\<lambda>ts. time_Unix (go_quot ts 1000) (go_rem ts 1000 * Millisecond))
                          timestamps) h;
               tms = arrays h1 times_a;
               (startDate, endDate) = findDateRange tms;
               days = aggregateByDay rt tms;
               weeks = aggregateByWeek tms;
               months = aggregateByMonth rt tms;
               periods =
                 \<lparr>Daily = detect rt config (filterByTimeRange tms endDate (72 * Hour)),
                  Weekly = detect rt config (filterByTimeRange tms endDate (336 * Hour)),
                  AllTime = detect rt config tms,
                  Quarterly = detectQuarterlyPeriods rt config tms\<rparr>;
               (continuous, h2) = analyzeContinuousPeriods rt config times_a h1
           in (Inr \<lparr>TotalRecords = int (length (arrays h2 times_a)),
                    StartDate = startDate,
                    EndDate = endDate,
                    Days = days,
                    Weeks = weeks,
                    Months = months,
                    Periods = periods,
                    Continuous = continuous\<rparr>,
               h2))"

subsection \<open>A reference runtime\<close>

text \<open>One admissible \<^verbatim>\<open>sort.Slice\<close>: an insertion sort that places an element behind the
  elements it ties with, so that it reverses the order of equal elements.\<close>

fun insert_last :: "('a \<Rightarrow> 'a \<Rightarrow> bool) \<Rightarrow> 'a \<Rightarrow> 'a list \<Rightarrow> 'a list" where
  "insert_last lt x [] = [x]"
| "insert_last lt x (y # ys) = (if lt x y then x # y # ys else y # insert_last lt x ys)"

definition sort_ties_reversed :: "('a \<Rightarrow> 'a \<Rightarrow> bool) \<Rightarrow> 'a list \<Rightarrow> 'a list" where
  "sort_ties_reversed lt xs = foldr (insert_last lt) xs []"

text \<open>A runtime that sorts so, converts a float that does not fit to the smallest
  integer, and visits the keys of a map in the order of their insertion.\<close>

definition rt0 :: runtime where
  "rt0 = \<lparr>sort_Slice = sort_ties_reversed,
          float_to_int = (\<lambda>f. - (2 ^ 63)),
          range_order = (\<lambda>ks. ks),
          range_order_months = (\<lambda>ks. ks)\<rparr>"

text \<open>The configuration of \<^verbatim>\<open>DefaultPeriodConfig\<close>.\<close>

definition DefaultPeriodConfig :: PeriodConfig where
  "DefaultPeriodConfig = \<lparr>MinPeriod = 1 / 10, MaxPeriod = 8760, NumPeriods = 5, SamplesPerPeak = 5\<rparr>"


text \<open>A store that holds one array, the caller's timestamps, at address 0.\<close>

definition heap_of :: "int list \<Rightarrow> heap" where
  "heap_of xs = \<lparr>arrays = (\<lambda>a. [])(0 := xs), brk = 1\<rparr>"

subsection \<open>The claimed behaviour, for comparison\<close>




text \<open>The runs as the specification words them: \<open>split_runs\<close> cuts a list of days
  wherever two consecutive days are more than two days apart, and \<open>first_longest\<close> is the
  first of the longest lists of a list of lists.\<close>

fun split_runs :: "Time list \<Rightarrow> Time list list" where
  "split_runs [] = []"
| "split_runs [d] = [[d]]"
| "split_runs (d # e # ds) =
     (if e - d \<le> 2 * (24 * Hour)
      then (case split_runs (e # ds) of [] \<Rightarrow> [[d]] | r # rs \<Rightarrow> (d # r) # rs)
      else [d] # split_runs (e # ds))"

fun first_longest :: "'a list list \<Rightarrow> 'a list" where
  "first_longest [] = []"
| "first_longest (r # rs) =
     (if length (first_longest rs) > length r then first_longest rs else r)"

text \<open>The best run the scan has recorded, the summary of a run that the scan keeps (its
  first day, its last day, its length), and the replacement on strictly greater length.\<close>

definition best_run :: "scan_state \<Rightarrow> Time \<times> Time \<times> int" where
  "best_run s = (maxStart s, maxEnd s, maxLength s)"

definition run_summary :: "Time list \<Rightarrow> Time \<times> Time \<times> int" where
  "run_summary r = (hd r, last r, int (length r))"

definition keep_longer :: "Time \<times> Time \<times> int \<Rightarrow> Time \<times> Time \<times> int \<Rightarrow> Time \<times> Time \<times> int" where
  "keep_longer b r = (if snd (snd r) > snd (snd b) then r else b)"

text \<open>Two clusters of three consecutive days, ten days apart, given out of order.\<close>

definition two_clusters :: "Time list" where
  "two_clusters =
     [12 * (24 * Hour) + 7, 0, 24 * Hour + 5, 2 * (24 * Hour), 10 * (24 * Hour), 11 * (24 * Hour)]"

text \<open>Two timestamps in milliseconds: midnight of January 1 of year 1 (UTC), the
  instant of the zero time, and midnight of the next day.\<close>

definition zero_day_timestamps :: "int list" where
  "zero_day_timestamps = [- 62135596800000, - 62135510400000]"

section \<open>Properties\<close>

subsection \<open>The reference runtime meets the contract of the sort\<close>








subsection \<open>Peaks and their significance\<close>










text \<open>Every power \<^verbatim>\<open>computePower\<close> returns is non-negative, so the spectra that
  \<^verbatim>\<open>computePeriodogram\<close> computes satisfy the hypothesis of the theorem below.\<close>

lemma computePower_nonneg: "0 \<le> computePower tms freq"
  by (simp add: computePower_def Let_def)

lemma computePeriodogram_nonneg: "\<forall>p\<in>set (snd (computePeriodogram rt cfg tms)). 0 \<le> p"
  by (auto simp: computePeriodogram_def Let_def computePower_nonneg)




subsection \<open>The entry point and its validation\<close>

lemma time_Unix_millis:
  "time_Unix (go_quot ts 1000) (go_rem ts 1000 * Millisecond) = ts * Millisecond"
  by (simp add: time_Unix_def go_rem_def Millisecond_def algebra_simps)

lemma detect_Nil: "detect rt cfg [] = []"
  by (simp add: detect_def)

lemma findLongestContinuousPeriod_heap:
  "snd (findLongestContinuousPeriod a h) = h\<lparr>arrays := (arrays h)(a := sort (arrays h a))\<rparr>"
proof (cases "length (arrays h a) < 2")
  case True
  then have "sort (arrays h a) = arrays h a"
    by (cases "arrays h a" rule: list.exhaust; cases "tl (arrays h a)") auto
  then show ?thesis using True by (simp add: findLongestContinuousPeriod_def)
next
  case False
  then show ?thesis by (simp add: findLongestContinuousPeriod_def Let_def)
qed

lemma analyzeContinuousPeriods_eq:
  assumes "arrays h a \<noteq> []"
  shows "analyzeContinuousPeriods rt cfg a h =
    (let tms = arrays h a;
         ((start, endT, continuous), h') = findLongestContinuousPeriod a h
     in (\<lparr>AllData = \<lparr>Daily = detect rt cfg tms, Weekly = detect rt cfg tms,
                      AllTime = detect rt cfg tms, Quarterly = Map.empty\<rparr>,
          LongestContinuous = \<lparr>Daily = detect rt cfg continuous, Weekly = detect rt cfg continuous,
                      AllTime = detect rt cfg continuous, Quarterly = Map.empty\<rparr>,
          Start = (if continuous = [] then zeroTime else start),
          End = (if continuous = [] then zeroTime else endT),
          RecordCount = int (length tms)\<rparr>, h'))"
  using assms
  by (simp add: analyzeContinuousPeriods_def emptyPeriodResults_def Let_def detect_Nil
        split: prod.splits)

lemma AnalyzeTimestamps_invalid:
  assumes "arrays h a = [] \<or> MinPeriod cfg \<le> 0 \<or> MaxPeriod cfg \<le> 0
           \<or> MinPeriod cfg \<ge> MaxPeriod cfg \<or> NumPeriods cfg \<le> 0"
  shows "\<exists>e. AnalyzeTimestamps rt a cfg h = (Inl e, h)"
  using assms by (auto simp: AnalyzeTimestamps_def Let_def)

lemma AnalyzeTimestamps_valid:
  assumes "arrays h a \<noteq> []" and "0 < MinPeriod cfg" and "0 < MaxPeriod cfg"
    and "MinPeriod cfg < MaxPeriod cfg" and "0 < NumPeriods cfg"
  shows "AnalyzeTimestamps rt a cfg h =
    (let tms = map (\<lambda>ts. ts * Millisecond) (arrays h a);
         h1 = h\<lparr>arrays := (arrays h)(brk h := tms), brk := brk h + 1\<rparr>
     in (Inr \<lparr>TotalRecords = int (length tms),
              StartDate = fst (findDateRange tms),
              EndDate = snd (findDateRange tms),
              Days = aggregateByDay rt tms,
              Weeks = aggregateByWeek tms,
              Months = aggregateByMonth rt tms,
              Periods =
                 \<lparr>Daily = detect rt cfg (filterByTimeRange tms (snd (findDateRange tms)) (72 * Hour)),
                  Weekly = detect rt cfg (filterByTimeRange tms (snd (findDateRange tms)) (336 * Hour)),
                  AllTime = detect rt cfg tms,
                  Quarterly = detectQuarterlyPeriods rt cfg tms\<rparr>,
              Continuous = fst (analyzeContinuousPeriods rt cfg (brk h) h1)\<rparr>,
         snd (analyzeContinuousPeriods rt cfg (brk h) h1)))"
proof -
  have heap_len: "length (arrays (snd (analyzeContinuousPeriods rt cfg b g)) b) = length (arrays g b)"
    for b g
  proof (cases "arrays g b = []")
    case True
    then show ?thesis by (simp add: analyzeContinuousPeriods_def Let_def)
  next
    case False
    have "snd (analyzeContinuousPeriods rt cfg b g) = snd (findLongestContinuousPeriod b g)"
      using False by (simp add: analyzeContinuousPeriods_eq Let_def split: prod.splits)
    then show ?thesis by (simp add: findLongestContinuousPeriod_heap)
  qed
  show ?thesis
    using assms
    by (simp add: AnalyzeTimestamps_def Let_def alloc_def time_Unix_millis case_prod_beta heap_len)
qed

lemma gridSize_bounds: "100 \<le> gridSize rt cfg T \<and> gridSize rt cfg T \<le> 10000"
  by (simp add: gridSize_def Let_def)

lemma length_convertToHours: "length (convertToHours tms) = length tms"
  by (simp add: convertToHours_def Let_def)

lemma computePeriodogram_length:
  assumes "0 < hs ! (length hs - 1) - hs ! 0"
  shows "int (length (fst (computePeriodogram rt cfg hs))) = gridSize rt cfg (hs ! (length hs - 1) - hs ! 0)"
  using assms gridSize_bounds[of rt cfg "hs ! (length hs - 1) - hs ! 0"]
  by (simp add: computePeriodogram_def Let_def)

lemma computePeriodogram_no_span:
  assumes "hs ! (length hs - 1) - hs ! 0 \<le> 0"
  shows "computePeriodogram rt cfg hs = ([], [])"
  using assms by (simp add: computePeriodogram_def Let_def)

lemma findSignificantPeaks_no_peaks:
  "findLocalPeaks powers = [] \<Longrightarrow> findSignificantPeaks rt cfg freqs powers = []"
  by (simp add: findSignificantPeaks_def rankedPeaks_def)

lemma findLocalPeaks_Nil: "findLocalPeaks [] = []"
  by (simp add: findLocalPeaks_def)

text \<open>
  C2. \<^verbatim>\<open>AnalyzeTimestamps\<close> returns an error exactly when the timestamps are empty, or
  \<open>MinPeriod \<le> 0\<close>, or \<open>MaxPeriod \<le> 0\<close>, or \<open>MinPeriod \<ge> MaxPeriod\<close>, or \<open>NumPeriods \<le> 0\<close>.
  A window with fewer than four points, with a span that is not positive, or with a
  spectrum that has no interior local maximum gives the empty sequence of periods.
\<close>

theorem AnalyzeTimestamps_error_iff:
  "((\<exists>e. fst (AnalyzeTimestamps rt a cfg h) = Inl e) \<longleftrightarrow>
      arrays h a = [] \<or> MinPeriod cfg \<le> 0 \<or> MaxPeriod cfg \<le> 0
      \<or> MinPeriod cfg \<ge> MaxPeriod cfg \<or> NumPeriods cfg \<le> 0)
   \<and> (length tms < 4 \<longrightarrow> detect rt cfg tms = [])
   \<and> (convertToHours tms ! (length tms - 1) - convertToHours tms ! 0 \<le> 0
        \<longrightarrow> detect rt cfg tms = [])
   \<and> (findLocalPeaks (snd (computePeriodogram rt cfg (convertToHours tms))) = []
        \<longrightarrow> detect rt cfg tms = [])"
proof -
  let ?bad = "arrays h a = [] \<or> MinPeriod cfg \<le> 0 \<or> MaxPeriod cfg \<le> 0
      \<or> MinPeriod cfg \<ge> MaxPeriod cfg \<or> NumPeriods cfg \<le> 0"
  have "\<exists>e. fst (AnalyzeTimestamps rt a cfg h) = Inl e" if ?bad
    using AnalyzeTimestamps_invalid[OF that, of rt] by auto
  moreover have "\<not> (\<exists>e. fst (AnalyzeTimestamps rt a cfg h) = Inl e)" if "\<not> ?bad"
  proof -
    from that have "arrays h a \<noteq> []" "0 < MinPeriod cfg" "0 < MaxPeriod cfg"
      "MinPeriod cfg < MaxPeriod cfg" "0 < NumPeriods cfg"
      by auto
    from AnalyzeTimestamps_valid[OF this, of rt] show ?thesis
      by (simp add: Let_def)
  qed
  ultimately have iff: "(\<exists>e. fst (AnalyzeTimestamps rt a cfg h) = Inl e) \<longleftrightarrow> ?bad"
    by blast
  have few: "length tms < 4 \<longrightarrow> detect rt cfg tms = []"
    by (simp add: detect_def)
  have span: "convertToHours tms ! (length tms - 1) - convertToHours tms ! 0 \<le> 0
        \<longrightarrow> detect rt cfg tms = []"
  proof
    assume "convertToHours tms ! (length tms - 1) - convertToHours tms ! 0 \<le> 0"
    then have "computePeriodogram rt cfg (convertToHours tms) = ([], [])"
      using computePeriodogram_no_span[of "convertToHours tms"]
      by (simp add: length_convertToHours)
    then show "detect rt cfg tms = []"
      by (simp add: detect_def Let_def findSignificantPeaks_no_peaks findLocalPeaks_Nil)
  qed
  have peaks: "findLocalPeaks (snd (computePeriodogram rt cfg (convertToHours tms))) = []
        \<longrightarrow> detect rt cfg tms = []"
    by (simp add: detect_def Let_def case_prod_beta findSignificantPeaks_no_peaks)
  show ?thesis
    using iff few span peaks by blast
qed

lemma convertToHours_same:
  "convertToHours [5, 5, 5, 5] = [0, 0, 0, 0]"
  by (simp add: convertToHours_def Before_def Hours_def time_Sub_def go_quot_def go_rem_def
        maxDuration_def minDuration_def Hour_def)

theorem AnalyzeTimestamps_error_iff_witness:
  "(\<exists>e. fst (AnalyzeTimestamps rt0 0 DefaultPeriodConfig (heap_of [])) = Inl e)
   \<and> \<not> (\<exists>e. fst (AnalyzeTimestamps rt0 0 DefaultPeriodConfig (heap_of [1000])) = Inl e)
   \<and> detect rt0 DefaultPeriodConfig [0, 1, 2] = []
   \<and> detect rt0 DefaultPeriodConfig [5, 5, 5, 5] = []"
proof -
  have 1: "\<exists>e. fst (AnalyzeTimestamps rt0 0 DefaultPeriodConfig (heap_of [])) = Inl e"
    using AnalyzeTimestamps_error_iff[of rt0 0 DefaultPeriodConfig "heap_of []" "[]"]
    by (simp add: heap_of_def)
  have 2: "\<not> (\<exists>e. fst (AnalyzeTimestamps rt0 0 DefaultPeriodConfig (heap_of [1000])) = Inl e)"
    using AnalyzeTimestamps_error_iff[of rt0 0 DefaultPeriodConfig "heap_of [1000]" "[]"]
    by (simp add: heap_of_def DefaultPeriodConfig_def)
  have 3: "detect rt0 DefaultPeriodConfig [0, 1, 2] = []"
    using AnalyzeTimestamps_error_iff[of rt0 0 DefaultPeriodConfig "heap_of []" "[0, 1, 2]"]
    by simp
  have 4: "detect rt0 DefaultPeriodConfig [5, 5, 5, 5] = []"
    using AnalyzeTimestamps_error_iff[of rt0 0 DefaultPeriodConfig "heap_of []" "[5, 5, 5, 5]"]
    by (simp add: convertToHours_same)
  show ?thesis using 1 2 3 4 by blast
qed

subsection \<open>What the analysis leaves in the store\<close>

lemma findLongestContinuousPeriod_other:
  "b \<noteq> a \<Longrightarrow> arrays (snd (findLongestContinuousPeriod a h)) b = arrays h b"
  by (simp add: findLongestContinuousPeriod_heap)

lemma analyzeContinuousPeriods_heap:
  "snd (analyzeContinuousPeriods rt cfg a h) = h\<lparr>arrays := (arrays h)(a := sort (arrays h a))\<rparr>"
proof (cases "arrays h a = []")
  case True
  then have "(arrays h)(a := []) = arrays h"
    by (metis fun_upd_triv)
  then show ?thesis using True by (simp add: analyzeContinuousPeriods_def Let_def)
next
  case False
  then have "snd (analyzeContinuousPeriods rt cfg a h) = snd (findLongestContinuousPeriod a h)"
    by (simp add: analyzeContinuousPeriods_eq Let_def case_prod_beta)
  then show ?thesis by (simp add: findLongestContinuousPeriod_heap)
qed

lemma AnalyzeTimestamps_heap:
  "snd (AnalyzeTimestamps rt a cfg h) =
     (if arrays h a = [] \<or> MinPeriod cfg \<le> 0 \<or> MaxPeriod cfg \<le> 0
         \<or> MinPeriod cfg \<ge> MaxPeriod cfg \<or> NumPeriods cfg \<le> 0
      then h
      else h\<lparr>arrays := (arrays h)(brk h := sort (map (\<lambda>ts. ts * Millisecond) (arrays h a))),
              brk := brk h + 1\<rparr>)"
proof (cases "arrays h a = [] \<or> MinPeriod cfg \<le> 0 \<or> MaxPeriod cfg \<le> 0
         \<or> MinPeriod cfg \<ge> MaxPeriod cfg \<or> NumPeriods cfg \<le> 0")
  case True
  then show ?thesis using AnalyzeTimestamps_invalid[OF True, of rt] by auto
next
  case False
  then have "arrays h a \<noteq> []" "0 < MinPeriod cfg" "0 < MaxPeriod cfg"
      "MinPeriod cfg < MaxPeriod cfg" "0 < NumPeriods cfg"
    by auto
  from AnalyzeTimestamps_valid[OF this, of rt] show ?thesis
    using False by (simp add: Let_def analyzeContinuousPeriods_heap)
qed

text \<open>
  C8. \<^verbatim>\<open>AnalyzeTimestamps\<close> does not change its argument: every array allocated before the
  call, the caller's timestamps among them, holds the same values in the same order after
  it. The sort of the continuity analysis works on the array the function allocates
  for \<^verbatim>\<open>times\<close> (\<open>AnalyzeTimestamps_heap\<close>).
\<close>

theorem timestamps_not_mutated:
  assumes "b < brk h"
  shows "arrays (snd (AnalyzeTimestamps rt a cfg h)) b = arrays h b"
  using assms by (simp add: AnalyzeTimestamps_heap)

theorem timestamps_not_mutated_witness:
  "(0::nat) < brk (heap_of [3000, 1000, 2000])
   \<and> arrays (snd (AnalyzeTimestamps rt0 0 DefaultPeriodConfig (heap_of [3000, 1000, 2000]))) 0
       = [3000, 1000, 2000]
   \<and> arrays (snd (AnalyzeTimestamps rt0 0 DefaultPeriodConfig (heap_of [3000, 1000, 2000]))) 1
       = [1000000000, 2000000000, 3000000000]"
proof -
  have lt: "(0::nat) < brk (heap_of [3000, 1000, 2000])"
    by (simp add: heap_of_def)
  have "arrays (snd (AnalyzeTimestamps rt0 0 DefaultPeriodConfig (heap_of [3000, 1000, 2000]))) 1
       = [1000000000, 2000000000, 3000000000]"
    by (simp add: AnalyzeTimestamps_heap heap_of_def DefaultPeriodConfig_def Millisecond_def)
  then show ?thesis
    using lt timestamps_not_mutated[OF lt, of rt0 0 DefaultPeriodConfig]
    by (simp add: heap_of_def)
qed

subsection \<open>The windows of the continuity analysis\<close>

text \<open>
  C6. In the result of the continuity analysis the daily, weekly and all-time sequences
  of \<open>AllData\<close> are pairwise equal: each is the detection on the whole converted
  collection, with no filter by 72 or 336 hours. Those of \<open>LongestContinuous\<close> are pairwise
  equal as well: each is the detection on the longest continuous subset.
\<close>

theorem continuous_windows_unfiltered:
  assumes "AnalyzeTimestamps rt a cfg h = (Inr r, h')"
  shows "(let tms = map (\<lambda>ts. ts * Millisecond) (arrays h a);
              g = h\<lparr>arrays := (arrays h)(brk h := tms), brk := brk h + 1\<rparr>;
              continuous = snd (snd (fst (findLongestContinuousPeriod (brk h) g)));
              allData = AllData (Continuous r);
              longest = LongestContinuous (Continuous r)
          in Daily allData = Weekly allData \<and> Weekly allData = AllTime allData
           \<and> Daily allData = AllTime allData \<and> AllTime allData = detect rt cfg tms
           \<and> Daily longest = Weekly longest \<and> Weekly longest = AllTime longest
           \<and> Daily longest = AllTime longest \<and> AllTime longest = detect rt cfg continuous)"
proof -
  have "\<not> (arrays h a = [] \<or> MinPeriod cfg \<le> 0 \<or> MaxPeriod cfg \<le> 0
           \<or> MinPeriod cfg \<ge> MaxPeriod cfg \<or> NumPeriods cfg \<le> 0)"
  proof
    assume "arrays h a = [] \<or> MinPeriod cfg \<le> 0 \<or> MaxPeriod cfg \<le> 0
           \<or> MinPeriod cfg \<ge> MaxPeriod cfg \<or> NumPeriods cfg \<le> 0"
    from AnalyzeTimestamps_invalid[OF this, of rt] assms show False by auto
  qed
  then have ok: "arrays h a \<noteq> []" "0 < MinPeriod cfg" "0 < MaxPeriod cfg"
      "MinPeriod cfg < MaxPeriod cfg" "0 < NumPeriods cfg"
    by auto
  let ?tms = "map (\<lambda>ts. ts * Millisecond) (arrays h a)"
  let ?g = "h\<lparr>arrays := (arrays h)(brk h := ?tms), brk := brk h + 1\<rparr>"
  have ne: "arrays ?g (brk h) \<noteq> []" using ok(1) by simp
  have "Continuous r = fst (analyzeContinuousPeriods rt cfg (brk h) ?g)"
    using assms AnalyzeTimestamps_valid[OF ok, of rt] by (auto simp: Let_def)
  then show ?thesis
    using analyzeContinuousPeriods_eq[OF ne, of rt cfg]
    by (simp add: Let_def case_prod_beta)
qed

lemma AnalyzeTimestamps_succeeds:
  assumes "arrays h a \<noteq> []" and "0 < MinPeriod cfg" and "0 < MaxPeriod cfg"
    and "MinPeriod cfg < MaxPeriod cfg" and "0 < NumPeriods cfg"
  shows "\<exists>r h'. AnalyzeTimestamps rt a cfg h = (Inr r, h')"
  using AnalyzeTimestamps_valid[OF assms, of rt] by (simp add: Let_def)

theorem continuous_windows_unfiltered_witness:
  "\<exists>r h'. AnalyzeTimestamps rt0 0 DefaultPeriodConfig (heap_of [5000, 1000, 4000, 2000, 3000]) = (Inr r, h')
     \<and> Daily (AllData (Continuous r)) = Weekly (AllData (Continuous r))
     \<and> Weekly (AllData (Continuous r)) = AllTime (AllData (Continuous r))
     \<and> AllTime (AllData (Continuous r))
         = detect rt0 DefaultPeriodConfig
             [5000000000, 1000000000, 4000000000, 2000000000, 3000000000]
     \<and> Daily (LongestContinuous (Continuous r)) = Weekly (LongestContinuous (Continuous r))
     \<and> Weekly (LongestContinuous (Continuous r)) = AllTime (LongestContinuous (Continuous r))"
proof -
  obtain r h' where
    run: "AnalyzeTimestamps rt0 0 DefaultPeriodConfig (heap_of [5000, 1000, 4000, 2000, 3000]) = (Inr r, h')"
    using AnalyzeTimestamps_succeeds[of "heap_of [5000, 1000, 4000, 2000, 3000]" 0 DefaultPeriodConfig rt0]
    by (auto simp: heap_of_def DefaultPeriodConfig_def)
  from continuous_windows_unfiltered[OF run] run show ?thesis
    by (simp add: Let_def heap_of_def Millisecond_def)
qed

text \<open>
  C10. In every result the \<open>Quarterly\<close> fields of \<open>Continuous.AllData\<close> and of
  \<open>Continuous.LongestContinuous\<close> are empty; the quarterly analysis fills the top-level
  \<open>Periods\<close> only.
\<close>

theorem continuous_quarterly_empty:
  assumes "AnalyzeTimestamps rt a cfg h = (Inr r, h')"
  shows "Quarterly (AllData (Continuous r)) = Map.empty
       \<and> Quarterly (LongestContinuous (Continuous r)) = Map.empty
       \<and> Quarterly (Periods r)
           = detectQuarterlyPeriods rt cfg (map (\<lambda>ts. ts * Millisecond) (arrays h a))"
proof -
  have "\<not> (arrays h a = [] \<or> MinPeriod cfg \<le> 0 \<or> MaxPeriod cfg \<le> 0
           \<or> MinPeriod cfg \<ge> MaxPeriod cfg \<or> NumPeriods cfg \<le> 0)"
  proof
    assume "arrays h a = [] \<or> MinPeriod cfg \<le> 0 \<or> MaxPeriod cfg \<le> 0
           \<or> MinPeriod cfg \<ge> MaxPeriod cfg \<or> NumPeriods cfg \<le> 0"
    from AnalyzeTimestamps_invalid[OF this, of rt] assms show False by auto
  qed
  then have ok: "arrays h a \<noteq> []" "0 < MinPeriod cfg" "0 < MaxPeriod cfg"
      "MinPeriod cfg < MaxPeriod cfg" "0 < NumPeriods cfg"
    by auto
  let ?tms = "map (\<lambda>ts. ts * Millisecond) (arrays h a)"
  let ?g = "h\<lparr>arrays := (arrays h)(brk h := ?tms), brk := brk h + 1\<rparr>"
  have ne: "arrays ?g (brk h) \<noteq> []" using ok(1) by simp
  have "Continuous r = fst (analyzeContinuousPeriods rt cfg (brk h) ?g)"
    and "Quarterly (Periods r) = detectQuarterlyPeriods rt cfg ?tms"
    using assms AnalyzeTimestamps_valid[OF ok, of rt] by (auto simp: Let_def)
  then show ?thesis
    using analyzeContinuousPeriods_eq[OF ne, of rt cfg]
    by (simp add: Let_def case_prod_beta)
qed

theorem continuous_quarterly_empty_witness:
  "\<exists>r h'. AnalyzeTimestamps rt0 0 DefaultPeriodConfig (heap_of [5000, 1000, 4000, 2000, 3000]) = (Inr r, h')
     \<and> Quarterly (AllData (Continuous r)) = Map.empty
     \<and> Quarterly (LongestContinuous (Continuous r)) = Map.empty"
proof -
  obtain r h' where
    run: "AnalyzeTimestamps rt0 0 DefaultPeriodConfig (heap_of [5000, 1000, 4000, 2000, 3000]) = (Inr r, h')"
    using AnalyzeTimestamps_succeeds[of "heap_of [5000, 1000, 4000, 2000, 3000]" 0 DefaultPeriodConfig rt0]
    by (auto simp: heap_of_def DefaultPeriodConfig_def)
  from continuous_quarterly_empty[OF run] run show ?thesis
    by blast
qed

subsection \<open>The size of the frequency grid\<close>

text \<open>
  C9. \<open>SamplesPerPeak\<close> is not validated: with timestamps and a configuration whose other
  fields are valid, \<^verbatim>\<open>AnalyzeTimestamps\<close> succeeds whatever the value of \<open>SamplesPerPeak\<close>,
  zero and negative values included, and a computed grid has at least 100 frequencies.
\<close>

theorem SamplesPerPeak_not_validated:
  assumes "arrays h a \<noteq> []" and "0 < MinPeriod cfg" and "0 < MaxPeriod cfg"
    and "MinPeriod cfg < MaxPeriod cfg" and "0 < NumPeriods cfg"
  shows "(\<exists>r h'. AnalyzeTimestamps rt a (cfg\<lparr>SamplesPerPeak := n\<rparr>) h = (Inr r, h'))
       \<and> 100 \<le> gridSize rt (cfg\<lparr>SamplesPerPeak := n\<rparr>) T
       \<and> (0 < hs ! (length hs - 1) - hs ! 0
            \<longrightarrow> 100 \<le> length (fst (computePeriodogram rt (cfg\<lparr>SamplesPerPeak := n\<rparr>) hs)))"
proof -
  have "\<exists>r h'. AnalyzeTimestamps rt a (cfg\<lparr>SamplesPerPeak := n\<rparr>) h = (Inr r, h')"
    using assms by (intro AnalyzeTimestamps_succeeds) simp_all
  moreover have "100 \<le> length (fst (computePeriodogram rt (cfg\<lparr>SamplesPerPeak := n\<rparr>) hs))"
    if "0 < hs ! (length hs - 1) - hs ! 0"
    using computePeriodogram_length[OF that, of rt "cfg\<lparr>SamplesPerPeak := n\<rparr>"]
      gridSize_bounds[of rt "cfg\<lparr>SamplesPerPeak := n\<rparr>" "hs ! (length hs - 1) - hs ! 0"]
    by linarith
  ultimately show ?thesis
    using gridSize_bounds[of rt "cfg\<lparr>SamplesPerPeak := n\<rparr>" T] by blast
qed

theorem SamplesPerPeak_not_validated_witness:
  "(\<exists>r h'. AnalyzeTimestamps rt0 0 (DefaultPeriodConfig\<lparr>SamplesPerPeak := 0\<rparr>) (heap_of [1000, 2000]) = (Inr r, h'))
   \<and> (\<exists>r h'. AnalyzeTimestamps rt0 0 (DefaultPeriodConfig\<lparr>SamplesPerPeak := - 7\<rparr>) (heap_of [1000, 2000]) = (Inr r, h'))
   \<and> gridSize rt0 (DefaultPeriodConfig\<lparr>SamplesPerPeak := 0\<rparr>) 3 = 100
   \<and> gridSize rt0 (DefaultPeriodConfig\<lparr>SamplesPerPeak := - 7\<rparr>) 3 = 100
   \<and> 100 \<le> length (fst (computePeriodogram rt0 (DefaultPeriodConfig\<lparr>SamplesPerPeak := - 7\<rparr>) [0, 1, 2, 3]))"
proof -
  have ok: "arrays (heap_of [1000, 2000]) 0 \<noteq> []" "0 < MinPeriod DefaultPeriodConfig"
    "0 < MaxPeriod DefaultPeriodConfig" "MinPeriod DefaultPeriodConfig < MaxPeriod DefaultPeriodConfig"
    "0 < NumPeriods DefaultPeriodConfig"
    by (simp_all add: heap_of_def DefaultPeriodConfig_def)
  have span: "(0::real) < [0, 1, 2, 3] ! (length [0, 1, 2, 3 :: real] - 1) - [0, 1, 2, 3] ! 0"
    by simp
  have g0: "gridSize rt0 (DefaultPeriodConfig\<lparr>SamplesPerPeak := 0\<rparr>) 3 = 100"
    by (simp add: gridSize_def go_int_def trunc_zero_def DefaultPeriodConfig_def)
  have g7: "gridSize rt0 (DefaultPeriodConfig\<lparr>SamplesPerPeak := - 7\<rparr>) 3 = 100"
    by (simp add: gridSize_def go_int_def trunc_zero_def DefaultPeriodConfig_def)
  show ?thesis
    using SamplesPerPeak_not_validated[OF ok, of rt0 0 3 "[0, 1, 2, 3]"]
      SamplesPerPeak_not_validated[OF ok, of rt0 "- 7" 3 "[0, 1, 2, 3]"] span g0 g7
    by blast
qed







subsection \<open>The ranking of the peaks\<close>











subsection \<open>The longest continuous run\<close>

lemma Hours_exact: "Hours d = real_of_int d / 3600000000000"
  by (simp add: Hours_def go_rem_def Hour_def field_simps)

lemma gap_le_2_iff: "Hours (time_Sub e d) / 24 \<le> 2 \<longleftrightarrow> e - d \<le> 2 * (24 * Hour)"
proof -
  have "Hours (time_Sub e d) / 24 \<le> 2 \<longleftrightarrow> time_Sub e d \<le> 172800000000000"
    by (simp add: Hours_exact field_simps)
  also have "\<dots> \<longleftrightarrow> e - d \<le> 172800000000000"
    by (simp add: time_Sub_def Let_def maxDuration_def minDuration_def)
  finally show ?thesis by (simp add: Hour_def)
qed

lemma split_runs_Cons: "\<exists>r rs. split_runs (d # ds) = (d # r) # rs"
  by (induction ds arbitrary: d) (auto split: list.splits)

lemma split_runs_nonempty: "r \<in> set (split_runs ds) \<Longrightarrow> r \<noteq> []"
proof (induction ds arbitrary: r rule: split_runs.induct)
  case 1
  then show ?case by simp
next
  case (2 d)
  then show ?case by simp
next
  case (3 d e ds)
  then show ?case
    by (auto split: if_splits list.splits)
qed

lemma concat_split_runs: "concat (split_runs ds) = ds"
  by (induction ds rule: split_runs.induct) (auto split: list.splits)

lemma best_run_close: "best_run (close_run s) = keep_longer (best_run s) (currentStart s, currentEnd s, currentLength s)"
  by (simp add: best_run_def close_run_def keep_longer_def)

lemma scan_from_runs:
  assumes "currentEnd s = prev"
  shows "best_run (close_run (scan_from prev ds s)) =
     foldl keep_longer (best_run s)
       ((currentStart s, last (hd (split_runs (prev # ds))),
           currentLength s - 1 + int (length (hd (split_runs (prev # ds)))))
        # map run_summary (tl (split_runs (prev # ds))))"
  using assms
proof (induction ds arbitrary: prev s)
  case Nil
  then show ?case by (simp add: best_run_close)
next
  case (Cons e ds)
  obtain r rs where rs: "split_runs (e # ds) = (e # r) # rs"
    using split_runs_Cons by blast
  show ?case
  proof (cases "e - prev \<le> 2 * (24 * Hour)")
    case True
    let ?s = "s\<lparr>currentEnd := e, currentLength := currentLength s + 1\<rparr>"
    have "Hours (time_Sub e prev) / 24 \<le> 2"
      using True gap_le_2_iff by blast
    then have "scan_from prev (e # ds) s = scan_from e ds ?s"
      by (simp only: scan_from.simps Let_def if_True)
    then have "best_run (close_run (scan_from prev (e # ds) s)) = best_run (close_run (scan_from e ds ?s))"
      by simp
    also have "\<dots> = foldl keep_longer (best_run ?s)
       ((currentStart ?s, last (hd (split_runs (e # ds))),
           currentLength ?s - 1 + int (length (hd (split_runs (e # ds)))))
        # map run_summary (tl (split_runs (e # ds))))"
      by (rule Cons.IH) simp
    finally have step: "best_run (close_run (scan_from prev (e # ds) s)) =
       foldl keep_longer (best_run ?s)
         ((currentStart ?s, last (hd (split_runs (e # ds))),
             currentLength ?s - 1 + int (length (hd (split_runs (e # ds)))))
          # map run_summary (tl (split_runs (e # ds))))" .
    have "foldl keep_longer (best_run ?s)
         ((currentStart ?s, last (hd (split_runs (e # ds))),
             currentLength ?s - 1 + int (length (hd (split_runs (e # ds)))))
          # map run_summary (tl (split_runs (e # ds)))) =
       foldl keep_longer (best_run s)
         ((currentStart s, last (hd (split_runs (prev # e # ds))),
             currentLength s - 1 + int (length (hd (split_runs (prev # e # ds)))))
          # map run_summary (tl (split_runs (prev # e # ds))))"
      using True rs by (simp add: best_run_def ac_simps)
    then show ?thesis using step by (simp only:)
  next
    case False
    let ?s = "(close_run s)\<lparr>currentStart := e, currentEnd := e, currentLength := 1\<rparr>"
    have "\<not> Hours (time_Sub e prev) / 24 \<le> 2"
      using False gap_le_2_iff by blast
    then have "scan_from prev (e # ds) s = scan_from e ds ?s"
      by (simp only: scan_from.simps Let_def if_False)
    then have "best_run (close_run (scan_from prev (e # ds) s)) = best_run (close_run (scan_from e ds ?s))"
      by simp
    also have "\<dots> = foldl keep_longer (best_run ?s)
       ((currentStart ?s, last (hd (split_runs (e # ds))),
           currentLength ?s - 1 + int (length (hd (split_runs (e # ds)))))
        # map run_summary (tl (split_runs (e # ds))))"
      by (rule Cons.IH) simp
    also have "best_run ?s = keep_longer (best_run s) (currentStart s, currentEnd s, currentLength s)"
      using best_run_close[of s] by (simp add: best_run_def)
    finally have step: "best_run (close_run (scan_from prev (e # ds) s)) =
       foldl keep_longer (keep_longer (best_run s) (currentStart s, currentEnd s, currentLength s))
         ((currentStart ?s, last (hd (split_runs (e # ds))),
             currentLength ?s - 1 + int (length (hd (split_runs (e # ds)))))
          # map run_summary (tl (split_runs (e # ds))))" .
    have "foldl keep_longer (keep_longer (best_run s) (currentStart s, currentEnd s, currentLength s))
         ((currentStart ?s, last (hd (split_runs (e # ds))),
             currentLength ?s - 1 + int (length (hd (split_runs (e # ds)))))
          # map run_summary (tl (split_runs (e # ds)))) =
       foldl keep_longer (best_run s)
         ((currentStart s, last (hd (split_runs (prev # e # ds))),
             currentLength s - 1 + int (length (hd (split_runs (prev # e # ds)))))
          # map run_summary (tl (split_runs (prev # e # ds))))"
      using False rs Cons.prems by (simp add: run_summary_def)
    then show ?thesis using step by (simp only:)
  qed
qed

lemma foldl_keep_longer:
  assumes "0 \<le> snd (snd b)"
  shows "foldl keep_longer b (map run_summary rs) = keep_longer b (run_summary (first_longest rs))"
  using assms
proof (induction rs arbitrary: b)
  case Nil
  then show ?case by (simp add: keep_longer_def run_summary_def)
next
  case (Cons r rs)
  have "0 \<le> snd (snd (keep_longer b (run_summary r)))"
    using Cons.prems by (simp add: keep_longer_def run_summary_def)
  from Cons.IH[OF this] show ?case
    by (auto simp: keep_longer_def run_summary_def)
qed

lemma first_longest_nonempty:
  "[] \<notin> set xs \<Longrightarrow> xs \<noteq> [] \<Longrightarrow> 0 < length (first_longest xs)"
  by (induction xs) auto

lemma scan_days_runs:
  assumes "days \<noteq> []"
  shows "best_run (scan_days days) = run_summary (first_longest (split_runs days))"
proof -
  obtain d ds where days: "days = d # ds" using assms by (cases days) auto
  obtain r rs where rs: "split_runs (d # ds) = (d # r) # rs"
    using split_runs_Cons by blast
  let ?s = "\<lparr>currentStart = d, currentEnd = d, currentLength = 1,
                maxStart = zeroTime, maxEnd = zeroTime, maxLength = 0\<rparr>"
  have "best_run (scan_days days) = best_run (close_run (scan_from d ds ?s))"
    by (simp add: scan_days_def days)
  also have "\<dots> = foldl keep_longer (best_run ?s)
       ((currentStart ?s, last (hd (split_runs (d # ds))),
           currentLength ?s - 1 + int (length (hd (split_runs (d # ds)))))
        # map run_summary (tl (split_runs (d # ds))))"
    by (rule scan_from_runs) simp
  also have "\<dots> = foldl keep_longer (zeroTime, zeroTime, 0) (map run_summary (split_runs (d # ds)))"
    by (simp add: rs best_run_def run_summary_def)
  also have "\<dots> = keep_longer (zeroTime, zeroTime, 0) (run_summary (first_longest (split_runs (d # ds))))"
    by (rule foldl_keep_longer) simp
  also have "\<dots> = run_summary (first_longest (split_runs (d # ds)))"
  proof -
    have "first_longest (split_runs (d # ds)) \<noteq> []"
      using first_longest_nonempty[of "split_runs (d # ds)"] split_runs_nonempty
      by (auto simp: rs)
    then show ?thesis by (simp add: keep_longer_def run_summary_def)
  qed
  finally show ?thesis by (simp add: days)
qed

lemma first_longest_split:
  assumes "rs \<noteq> []"
  shows "\<exists>pre post. rs = pre @ first_longest rs # post
           \<and> (\<forall>p\<in>set pre. length p < length (first_longest rs))
           \<and> (\<forall>q\<in>set post. length q \<le> length (first_longest rs))"
  using assms
proof (induction rs)
  case Nil
  then show ?case by simp
next
  case (Cons r rs)
  show ?case
  proof (cases "rs = []")
    case True
    have "[r] = [] @ r # []" by simp
    then have "\<exists>pre post. [r] = pre @ r # post
           \<and> (\<forall>p\<in>set pre. length p < length r)
           \<and> (\<forall>q\<in>set post. length q \<le> length r)"
      by (metis empty_iff empty_set)
    then show ?thesis using True by simp
  next
    case False
    from Cons.IH[OF False] obtain pre post where
      sp: "rs = pre @ first_longest rs # post"
      and lo: "\<forall>p\<in>set pre. length p < length (first_longest rs)"
      and hi: "\<forall>q\<in>set post. length q \<le> length (first_longest rs)"
      by blast
    show ?thesis
    proof (cases "length (first_longest rs) > length r")
      case True
      have "r # rs = (r # pre) @ first_longest rs # post" using sp by simp
      moreover have "\<forall>p\<in>set (r # pre). length p < length (first_longest rs)"
        using lo True by simp
      ultimately show ?thesis using True hi by (metis first_longest.simps(2))
    next
      case False
      have all: "\<forall>q\<in>set rs. length q \<le> length (first_longest rs)"
      proof
        fix q assume "q \<in> set rs"
        then have "q \<in> set pre \<or> q = first_longest rs \<or> q \<in> set post"
          using sp by (metis Un_iff insert_iff list.simps(15) set_append)
        then show "length q \<le> length (first_longest rs)"
          using lo hi by auto
      qed
      have "r # rs = [] @ first_longest (r # rs) # rs" using False by simp
      moreover have "\<forall>q\<in>set rs. length q \<le> length (first_longest (r # rs))"
        using all False by auto
      ultimately show ?thesis by (metis empty_iff empty_set)
    qed
  qed
qed

lemma split_runs_close:
  "r \<in> set (split_runs ds) \<Longrightarrow> successively (\<lambda>d e. e - d \<le> 2 * (24 * Hour)) r"
proof (induction ds arbitrary: r rule: split_runs.induct)
  case 1
  then show ?case by simp
next
  case (2 d)
  then show ?case by simp
next
  case (3 d e ds)
  obtain r' rs where rs: "split_runs (e # ds) = (e # r') # rs"
    using split_runs_Cons by blast
  show ?case
  proof (cases "e - d \<le> 2 * (24 * Hour)")
    case True
    then have "r = d # e # r' \<or> r \<in> set rs" using 3(3) rs by auto
    moreover have "successively (\<lambda>d e. e - d \<le> 2 * (24 * Hour)) (e # r')"
      using 3(1)[OF True, of "e # r'"] rs by simp
    moreover have "r \<in> set rs \<Longrightarrow> successively (\<lambda>d e. e - d \<le> 2 * (24 * Hour)) r"
      using 3(1)[OF True, of r] rs by simp
    ultimately show ?thesis using True by auto
  next
    case False
    then have "r = [d] \<or> r \<in> set (split_runs (e # ds))" using 3(3) by auto
    then show ?thesis using 3(2)[OF False] by auto
  qed
qed

lemma split_runs_apart:
  "successively (\<lambda>r r'. hd r' - last r > 2 * (24 * Hour)) (split_runs ds)"
proof (induction ds rule: split_runs.induct)
  case 1
  then show ?case by simp
next
  case (2 d)
  then show ?case by simp
next
  case (3 d e ds)
  obtain r' rs where rs: "split_runs (e # ds) = (e # r') # rs"
    using split_runs_Cons by blast
  show ?case
  proof (cases "e - d \<le> 2 * (24 * Hour)")
    case True
    then show ?thesis using 3(1)[OF True] rs by (cases rs) auto
  next
    case False
    then show ?thesis using 3(2)[OF False] rs by auto
  qed
qed

text \<open>
  C5. The run finder cuts the sorted unique days into runs, a run being extended while
  the next day is at most two days after the previous one, and returns the first of the
  longest runs: its first day, its last day, and the instants from the first day up to
  the end of the last day. Every run before the returned one is strictly shorter, and no
  run after it is longer, so a later run of equal length does not replace it.
\<close>

theorem longest_run_first_wins:
  assumes "2 \<le> length (arrays h a)"
  shows "(let tms = sort (arrays h a);
              days = sort (remdups (map (\<lambda>t. Truncate t (24 * Hour)) tms));
              runs = split_runs days;
              run = first_longest runs
          in fst (findLongestContinuousPeriod a h)
               = (hd run, last run, filter (\<lambda>t. hd run \<le> t \<and> t < last run + 24 * Hour) tms)
           \<and> concat runs = days
           \<and> (\<forall>r\<in>set runs. successively (\<lambda>d e. e - d \<le> 2 * (24 * Hour)) r)
           \<and> successively (\<lambda>r r'. hd r' - last r > 2 * (24 * Hour)) runs
           \<and> (\<exists>pre post. runs = pre @ run # post
                 \<and> (\<forall>p\<in>set pre. length p < length run)
                 \<and> (\<forall>q\<in>set post. length q \<le> length run)))"
proof -
  define tms where "tms = sort (arrays h a)"
  define days where "days = sort (remdups (map (\<lambda>t. Truncate t (24 * Hour)) tms))"
  define run where "run = first_longest (split_runs days)"
  have "length tms = length (arrays h a)" by (simp add: tms_def)
  then have "tms \<noteq> []" using assms by auto
  then have "set days \<noteq> {}" by (simp add: days_def)
  then have ne: "days \<noteq> []" by auto
  then have runs_ne: "split_runs days \<noteq> []"
    using split_runs_Cons[of "hd days" "tl days"] by auto
  have best: "best_run (scan_days days) = run_summary run"
    unfolding run_def by (rule scan_days_runs[OF ne])
  have "0 < length run"
    unfolding run_def using first_longest_nonempty[OF _ runs_ne] split_runs_nonempty by blast
  then have pos: "maxLength (scan_days days) \<noteq> 0"
    and st: "maxStart (scan_days days) = hd run" and en: "maxEnd (scan_days days) = last run"
    using best by (auto simp: best_run_def run_summary_def)
  have "fst (findLongestContinuousPeriod a h)
          = (hd run, last run, filter (\<lambda>t. hd run \<le> t \<and> t < last run + 24 * Hour) tms)"
    using assms pos st en
    by (simp add: findLongestContinuousPeriod_def Let_def tms_def[symmetric] days_def[symmetric]
          Before_def time_Add_def not_less)
  moreover have "concat (split_runs days) = days" by (rule concat_split_runs)
  moreover have "\<forall>r\<in>set (split_runs days). successively (\<lambda>d e. e - d \<le> 2 * (24 * Hour)) r"
    using split_runs_close by blast
  moreover have "successively (\<lambda>r r'. hd r' - last r > 2 * (24 * Hour)) (split_runs days)"
    by (rule split_runs_apart)
  moreover have "\<exists>pre post. split_runs days = pre @ run # post
                 \<and> (\<forall>p\<in>set pre. length p < length run)
                 \<and> (\<forall>q\<in>set post. length q \<le> length run)"
    unfolding run_def by (rule first_longest_split[OF runs_ne])
  ultimately show ?thesis
    unfolding Let_def tms_def[symmetric] days_def[symmetric] run_def[symmetric] by blast
qed

lemma two_clusters_sorted:
  "sort two_clusters =
     [0, 86400000000005, 172800000000000, 864000000000000, 950400000000000, 1036800000000007]"
  by (simp add: two_clusters_def Hour_def)

lemma two_clusters_days:
  "sort (remdups (map (\<lambda>t. Truncate t (24 * Hour))
      [0, 86400000000005, 172800000000000, 864000000000000, 950400000000000, 1036800000000007]))
   = [0, 86400000000000, 172800000000000, 864000000000000, 950400000000000, 1036800000000000]"
  by (simp add: Truncate_def zeroTime_def Hour_def)

lemma two_clusters_runs:
  "split_runs [0, 86400000000000, 172800000000000, 864000000000000, 950400000000000, 1036800000000000]
   = [[0, 86400000000000, 172800000000000], [864000000000000, 950400000000000, 1036800000000000]]"
  by (simp add: Hour_def)

theorem longest_run_first_wins_witness:
  "2 \<le> length (arrays (heap_of two_clusters) 0)
   \<and> split_runs [0, 86400000000000, 172800000000000, 864000000000000, 950400000000000, 1036800000000000]
       = [[0, 86400000000000, 172800000000000], [864000000000000, 950400000000000, 1036800000000000]]
   \<and> fst (findLongestContinuousPeriod 0 (heap_of two_clusters))
       = (0, 172800000000000, [0, 86400000000005, 172800000000000])"
proof -
  have len: "2 \<le> length (arrays (heap_of two_clusters) 0)"
    by (simp add: heap_of_def two_clusters_def)
  have arr: "arrays (heap_of two_clusters) 0 = two_clusters"
    by (simp add: heap_of_def)
  have "fst (findLongestContinuousPeriod 0 (heap_of two_clusters))
       = (0, 172800000000000, [0, 86400000000005, 172800000000000])"
    using longest_run_first_wins[OF len]
    unfolding Let_def arr two_clusters_sorted two_clusters_days two_clusters_runs
    by (simp add: Hour_def)
  then show ?thesis using len two_clusters_runs by blast
qed

subsection \<open>The day series\<close>

lemma lookup0_count_keys_foldl:
  "lookup0 (foldl (\<lambda>m k. m(k \<mapsto> lookup0 m k + 1)) m ks) k = lookup0 m k + int (count_list ks k)"
  by (induction ks arbitrary: m) (auto simp: lookup0_def)

lemma lookup0_count_keys: "lookup0 (count_keys ks) k = int (count_list ks k)"
  using lookup0_count_keys_foldl[of Map.empty ks k]
  by (simp add: count_keys_def lookup0_def)

lemma date_bounds_foldl:
  assumes "zeroTime \<notin> set ks" and "mn \<noteq> zeroTime" and "mx \<noteq> zeroTime"
  shows "foldl (\<lambda>(minDate, maxDate) date.
              (if IsZero minDate \<or> Before date minDate then date else minDate,
               if IsZero maxDate \<or> After date maxDate then date else maxDate))
           (mn, mx) ks
         = (fold min ks mn, fold max ks mx)"
  using assms
proof (induction ks arbitrary: mn mx)
  case Nil
  then show ?case by simp
next
  case (Cons k ks)
  have k: "k \<noteq> zeroTime" "zeroTime \<notin> set ks" using Cons.prems(1) by auto
  have mn': "(if IsZero mn \<or> Before k mn then k else mn) = min k mn"
    using Cons.prems(2) by (auto simp: IsZero_def Before_def)
  have mx': "(if IsZero mx \<or> After k mx then k else mx) = max k mx"
    using Cons.prems(3) by (auto simp: IsZero_def After_def)
  have a: "min k mn \<noteq> zeroTime" "max k mx \<noteq> zeroTime"
    using k Cons.prems by (auto simp: min_def max_def)
  show ?case
    using Cons.IH[OF k(2) a] by (simp add: mn' mx')
qed

lemma date_bounds_Min_Max:
  assumes "keys \<noteq> []" and "zeroTime \<notin> set keys"
  shows "date_bounds keys = (Min (set keys), Max (set keys))"
proof -
  obtain k ks where keys: "keys = k # ks" using assms(1) by (cases keys) auto
  have k: "k \<noteq> zeroTime" "zeroTime \<notin> set ks" using assms(2) keys by auto
  have "date_bounds keys = foldl (\<lambda>(minDate, maxDate) date.
              (if IsZero minDate \<or> Before date minDate then date else minDate,
               if IsZero maxDate \<or> After date maxDate then date else maxDate))
           (k, k) ks"
    by (simp add: date_bounds_def keys IsZero_def)
  also have "\<dots> = (fold min ks k, fold max ks k)"
    using date_bounds_foldl[OF k(2) k(1) k(1)] .
  also have "\<dots> = (Min (set keys), Max (set keys))"
    using Min.set_eq_fold[of k ks] Max.set_eq_fold[of k ks] by (simp add: keys)
  finally show ?thesis .
qed

lemma day_series_steps:
  "day_series m lo (lo + int n * (24 * Hour)) =
     map (\<lambda>i. \<lparr>Date = lo + int i * (24 * Hour), Count = lookup0 m (lo + int i * (24 * Hour))\<rparr>)
       [0 ..< Suc n]"
proof (induction n arbitrary: lo)
  case 0
  have "day_series m (AddDate_days lo 1) lo = []"
    by (subst day_series.simps) (simp add: After_def AddDate_days_def Hour_def)
  then show ?case
    by (subst day_series.simps) (simp add: After_def)
next
  case (Suc n)
  have nxt: "lo + int (Suc n) * (24 * Hour) = AddDate_days lo 1 + int n * (24 * Hour)"
    by (simp add: AddDate_days_def algebra_simps)
  have "day_series m lo (lo + int (Suc n) * (24 * Hour)) =
          \<lparr>Date = lo, Count = lookup0 m lo\<rparr>
            # day_series m (AddDate_days lo 1) (AddDate_days lo 1 + int n * (24 * Hour))"
    unfolding nxt
    by (subst day_series.simps) (simp add: After_def AddDate_days_def Hour_def)
  also have "day_series m (AddDate_days lo 1) (AddDate_days lo 1 + int n * (24 * Hour)) =
     map (\<lambda>i. \<lparr>Date = AddDate_days lo 1 + int i * (24 * Hour),
                Count = lookup0 m (AddDate_days lo 1 + int i * (24 * Hour))\<rparr>) [0 ..< Suc n]"
    by (rule Suc.IH)
  also have "\<dots> = map (\<lambda>i. \<lparr>Date = lo + int (Suc i) * (24 * Hour),
                Count = lookup0 m (lo + int (Suc i) * (24 * Hour))\<rparr>) [0 ..< Suc n]"
    by (simp add: AddDate_days_def algebra_simps)
  also have "\<lparr>Date = lo, Count = lookup0 m lo\<rparr> # \<dots> =
     map (\<lambda>i. \<lparr>Date = lo + int i * (24 * Hour), Count = lookup0 m (lo + int i * (24 * Hour))\<rparr>)
       [0 ..< Suc (Suc n)]"
    unfolding upt_conv_Cons[OF zero_less_Suc, of "Suc n"] map_Suc_upt[symmetric]
    by (simp add: comp_def del: upt_Suc)
  finally show ?case .
qed

lemma Truncate_day_aligned: "(Truncate t (24 * Hour) - zeroTime) mod (24 * Hour) = 0"
proof -
  have "(t - zeroTime - (t - zeroTime) mod (24 * Hour)) mod (24 * Hour) = 0"
    by (simp add: minus_mod_eq_mult_div)
  then show ?thesis
    by (simp add: Truncate_def Hour_def algebra_simps)
qed

text \<open>When no event falls on the day of the zero time, the series is the dense one for
  every order in which the keys are visited: one record for each day from the first to
  the last day with an event, in ascending order, with the number of events of that
  day.\<close>

lemma aggregateByDay_dense:
  assumes "tms \<noteq> []"
    and "mset (range_order rt (remdups (map (\<lambda>t. Truncate t (24 * Hour)) tms)))
           = mset (remdups (map (\<lambda>t. Truncate t (24 * Hour)) tms))"
    and "zeroTime \<notin> set (map (\<lambda>t. Truncate t (24 * Hour)) tms)"
  shows "(let days = map (\<lambda>t. Truncate t (24 * Hour)) tms;
              lo = Min (set days);
              hi = Max (set days)
          in aggregateByDay rt tms =
               map (\<lambda>i. \<lparr>Date = lo + int i * (24 * Hour),
                          Count = int (count_list days (lo + int i * (24 * Hour)))\<rparr>)
                 [0 ..< Suc (nat ((hi - lo) div (24 * Hour)))])"
proof -
  define days where "days = map (\<lambda>t. Truncate t (24 * Hour)) tms"
  define keys where "keys = range_order rt (remdups days)"
  define lo where "lo = Min (set days)"
  define hi where "hi = Max (set days)"
  have ne: "days \<noteq> []" using assms(1) by (simp add: days_def)
  have sets: "set keys = set days"
    using assms(2) unfolding keys_def days_def by (metis mset_eq_setD set_remdups)
  then have kne: "keys \<noteq> []" using ne by auto
  have nz: "zeroTime \<notin> set keys" using assms(3) sets by (simp add: days_def)
  have bounds: "date_bounds keys = (lo, hi)"
    using date_bounds_Min_Max[OF kne nz] by (simp add: sets lo_def hi_def)
  have lo_in: "lo \<in> set days" and hi_in: "hi \<in> set days"
    using ne by (simp_all add: lo_def hi_def)
  have le: "lo \<le> hi" using lo_in ne by (simp add: hi_def)
  have al: "\<And>d. d \<in> set days \<Longrightarrow> (d - zeroTime) mod (24 * Hour) = 0"
    using Truncate_day_aligned by (auto simp: days_def)
  have "(hi - lo) mod (24 * Hour) = ((hi - zeroTime) - (lo - zeroTime)) mod (24 * Hour)"
    by simp
  also have "\<dots> = 0"
    using al[OF lo_in] al[OF hi_in] by (metis mod_diff_eq diff_zero mod_0)
  finally have "(hi - lo) mod (24 * Hour) = 0" .
  then have "hi - lo = (hi - lo) div (24 * Hour) * (24 * Hour)"
    by (simp add: mod_eq_0_iff_dvd)
  moreover have "0 \<le> (hi - lo) div (24 * Hour)"
    using le by (simp add: Hour_def pos_imp_zdiv_nonneg_iff)
  ultimately have hi_eq: "hi = lo + int (nat ((hi - lo) div (24 * Hour))) * (24 * Hour)"
    by simp
  have "aggregateByDay rt tms = day_series (count_keys days) lo hi"
    using kne sets bounds ne
    by (simp add: aggregateByDay_def Let_def days_def[symmetric] keys_def[symmetric])
  also have "\<dots> = day_series (count_keys days) lo (lo + int (nat ((hi - lo) div (24 * Hour))) * (24 * Hour))"
    using hi_eq by simp
  also have "\<dots> = map (\<lambda>i. \<lparr>Date = lo + int i * (24 * Hour),
                          Count = int (count_list days (lo + int i * (24 * Hour)))\<rparr>)
                 [0 ..< Suc (nat ((hi - lo) div (24 * Hour)))]"
    by (simp only: day_series_steps lookup0_count_keys)
  finally show ?thesis
    by (simp only: Let_def days_def[symmetric] lo_def[symmetric] hi_def[symmetric])
qed

lemma zero_day_times:
  "map (\<lambda>ts. ts * Millisecond) zero_day_timestamps = [zeroTime, zeroTime + 24 * Hour]"
  by (simp add: zero_day_timestamps_def Millisecond_def zeroTime_def Hour_def)

lemma zero_day_series:
  "aggregateByDay rt0 [zeroTime, zeroTime + 24 * Hour]
     = [\<lparr>Date = zeroTime + 24 * Hour, Count = 1\<rparr>]"
  by (simp add: aggregateByDay_def rt0_def Truncate_def zeroTime_def Hour_def count_keys_def
        lookup0_def date_bounds_def IsZero_def Before_def After_def day_series.simps
        AddDate_days_def)

lemma zero_day_range:
  "findDateRange [zeroTime, zeroTime + 24 * Hour] = (zeroTime, zeroTime + 24 * Hour)"
  by (simp add: findDateRange_def Before_def After_def zeroTime_def Hour_def)

text \<open>
  C7 fails on the code. \<^verbatim>\<open>aggregateByDay\<close> takes a bound that is the zero time for a bound
  not yet set. With events on January 1 and January 2 of year 1, and the key of January 1
  visited first, the lower bound is overwritten by January 2: the analysis succeeds, its
  range of dates starts on January 1, and its day series has no record for that day.
\<close>

theorem day_series_drops_zero_day:
  "\<exists>r h'. AnalyzeTimestamps rt0 0 DefaultPeriodConfig (heap_of zero_day_timestamps) = (Inr r, h')
     \<and> StartDate r = zeroTime \<and> EndDate r = zeroTime + 24 * Hour
     \<and> Days r = [\<lparr>Date = zeroTime + 24 * Hour, Count = 1\<rparr>]"
proof -
  have ok: "arrays (heap_of zero_day_timestamps) 0 \<noteq> []" "0 < MinPeriod DefaultPeriodConfig"
    "0 < MaxPeriod DefaultPeriodConfig" "MinPeriod DefaultPeriodConfig < MaxPeriod DefaultPeriodConfig"
    "0 < NumPeriods DefaultPeriodConfig"
    by (simp_all add: heap_of_def DefaultPeriodConfig_def zero_day_timestamps_def)
  have arr: "arrays (heap_of zero_day_timestamps) 0 = zero_day_timestamps"
    by (simp add: heap_of_def)
  show ?thesis
    using AnalyzeTimestamps_valid[OF ok, of rt0]
    by (simp add: Let_def arr zero_day_times zero_day_series zero_day_range)
qed

text \<open>When the loop visits the keys in the other order, the series is the dense one.\<close>

lemma day_series_other_order:
  "aggregateByDay (rt0\<lparr>range_order := rev\<rparr>) [zeroTime, zeroTime + 24 * Hour]
     = [\<lparr>Date = zeroTime, Count = 1\<rparr>, \<lparr>Date = zeroTime + 24 * Hour, Count = 1\<rparr>]"
  by (simp add: aggregateByDay_def rt0_def Truncate_def zeroTime_def Hour_def count_keys_def
        lookup0_def date_bounds_def IsZero_def Before_def After_def day_series.simps
        AddDate_days_def)

text \<open>The month series has the same defect: with events in January and in February of
  year 1, and the key of January visited first, the series has no record for January.\<close>

lemma zero_month_keys:
  "map month_of [zeroTime, zeroTime + 31 * (24 * Hour)] = [(1, 1), (1, 2)]"
  by code_simp

lemma zero_month_tail: "month_series m (1, 3) (1, 2) = []"
  by (subst month_series.simps) (simp add: month_After_def month_Before_def)

lemma zero_month_series:
  "month_series (count_keys [(1, 1), (1, 2)]) (1, 2) (1, 2) = [\<lparr>Month = (1, 2), Count = 1\<rparr>]"
  by (subst month_series.simps)
     (simp add: month_After_def month_Before_def month_next_def count_keys_def lookup0_def
        zero_month_tail)

lemma month_series_drops_zero_month:
  "aggregateByMonth rt0 [zeroTime, zeroTime + 31 * (24 * Hour)] = [\<lparr>Month = (1, 2), Count = 1\<rparr>]"
  unfolding aggregateByMonth_def Let_def zero_month_keys
  using zero_month_series
  by (simp add: rt0_def month_bounds_def month_IsZero_def month_Before_def month_After_def)

end
